theory Spec2Isabelle
  imports Main
begin

section \<open>Values, series and tables\<close>

text \<open>
  The pipeline of \<^verbatim>\<open>src/main.py\<close> moves JSON records into pandas data frames and
  transforms them. A cell of a frame is a Python scalar. The three missing-value markers
  that pandas distinguishes when it prints a cell (\<^verbatim>\<open>None\<close>, the float \<^verbatim>\<open>nan\<close> and
  \<^verbatim>\<open>pd.NA\<close>) are kept apart, because \<^verbatim>\<open>clean_join_key\<close> names their three printed forms.
  A float other than \<^verbatim>\<open>nan\<close> is carried by its \<^verbatim>\<open>repr\<close> text, which determines it
  (\<^verbatim>\<open>inf\<close> and \<^verbatim>\<open>-inf\<close> for the two infinities).

  A frame holds the cells as pandas stores them: the integer 1 in a float64 column is the
  cell \<open>PFloat ''1.0''\<close>. Where pandas changes the representation of cells on its own
  (when it infers the dtypes of a new frame, widens a column that receives missing values
  in a merge, or stacks columns of different dtypes into one block), and where its
  versions differ, the behaviour is a parameter of the model, collected in \<open>pandas_lib\<close>.
\<close>

datatype pyval =
    PNone
  | PNaN
  | PNA
  | PStr string
  | PInt int
  | PBool bool
  | PFloat string

datatype error =
    KeyError
  | IndexError
  | ValueError
  | TypeError
  | AttributeError
  | MergeError
  | IntCastingNaNError
  | RequestException
  | AuthError
  | JSONDecodeError
  | FetchFailed string int

text \<open>
  \<open>FetchFailed endpoint status\<close> is the \<^verbatim>\<open>Exception("Failed request for {endpoint}: {status}")\<close>
  of the fetcher; the other constructors are the exceptions that the Python run time,
  pandas and requests raise.
\<close>

type_synonym series = "pyval list"

text \<open>
  A data frame: the length of its (range) index and its columns in order, each a label
  and a series. A frame with no column can still have rows, and pandas tells the two
  apart (\<^verbatim>\<open>shape == (n, 0)\<close> against \<^verbatim>\<open>(0, 0)\<close>), hence the separate \<open>nrows\<close>. A label may
  occur more than once: \<^verbatim>\<open>rename\<close> and \<^verbatim>\<open>reindex\<close> can produce such frames.
\<close>

record table =
  nrows :: nat
  columns :: "(string \<times> series) list"

definition wf_table :: "table \<Rightarrow> bool" where
  "wf_table df \<longleftrightarrow>
     distinct (map fst (columns df)) \<and> list_all (\<lambda>c. length (snd c) = nrows df) (columns df)"

definition column_names :: "table \<Rightarrow> string list" where
  "column_names df = map fst (columns df)"


definition isna :: "pyval \<Rightarrow> bool" where
  "isna v \<longleftrightarrow> v = PNone \<or> v = PNaN \<or> v = PNA"

subsection \<open>Printing scalars\<close>

definition digit_char :: "nat \<Rightarrow> char" where
  "digit_char d = (if d = 0 then CHR ''0'' else if d = 1 then CHR ''1'' else if d = 2 then CHR ''2''
     else if d = 3 then CHR ''3'' else if d = 4 then CHR ''4'' else if d = 5 then CHR ''5''
     else if d = 6 then CHR ''6'' else if d = 7 then CHR ''7'' else if d = 8 then CHR ''8''
     else CHR ''9'')"

fun str_nat :: "nat \<Rightarrow> string" where
  "str_nat n = (if n < 10 then [digit_char n] else str_nat (n div 10) @ [digit_char (n mod 10)])"

declare str_nat.simps [simp del]

definition str_int :: "int \<Rightarrow> string" where
  "str_int i = (if i < 0 then CHR ''-'' # str_nat (nat (- i)) else str_nat (nat i))"

text \<open>Python's \<^verbatim>\<open>str(v)\<close>.\<close>

fun py_str :: "pyval \<Rightarrow> string" where
  "py_str PNone = ''None''"
| "py_str PNaN = ''nan''"
| "py_str PNA = ''<NA>''"
| "py_str (PStr s) = s"
| "py_str (PInt i) = str_int i"
| "py_str (PBool b) = (if b then ''True'' else ''False'')"
| "py_str (PFloat r) = r"

definition fillna :: "pyval \<Rightarrow> series \<Rightarrow> series" where
  "fillna d s = map (\<lambda>v. if isna v then d else v) s"

definition dropna :: "series \<Rightarrow> series" where
  "dropna s = filter (\<lambda>v. \<not> isna v) s"

text \<open>\<^verbatim>\<open>Series.replace(to_replace, value)\<close> with a list of scalars to replace.\<close>

definition replace_values :: "pyval list \<Rightarrow> pyval \<Rightarrow> series \<Rightarrow> series" where
  "replace_values olds new s = map (\<lambda>v. if v \<in> set olds then new else v) s"

text \<open>\<^verbatim>\<open>Series.unique()\<close>: the distinct values in order of first appearance.\<close>

fun unique_from :: "'a list \<Rightarrow> 'a list \<Rightarrow> 'a list" where
  "unique_from seen [] = []"
| "unique_from seen (x # xs) =
     (if x \<in> set seen then unique_from seen xs else x # unique_from (x # seen) xs)"

definition unique :: "'a list \<Rightarrow> 'a list" where
  "unique xs = unique_from [] xs"

text \<open>\<^verbatim>\<open>str.lower()\<close> on ASCII text.\<close>

definition lower_char :: "char \<Rightarrow> char" where
  "lower_char c =
     (case map_of (zip ''ABCDEFGHIJKLMNOPQRSTUVWXYZ'' ''abcdefghijklmnopqrstuvwxyz'') c of
        None \<Rightarrow> c
      | Some l \<Rightarrow> l)"

definition py_lower :: "string \<Rightarrow> string" where
  "py_lower s = map lower_char s"

text \<open>\<^verbatim>\<open>sep.join(parts)\<close>.\<close>

fun join :: "string \<Rightarrow> string list \<Rightarrow> string" where
  "join sep [] = []"
| "join sep [x] = x"
| "join sep (x # y # ys) = x @ sep @ join sep (y # ys)"

subsection \<open>Frame access\<close>

text \<open>
  \<^verbatim>\<open>col in df.columns\<close>, and the columns that \<^verbatim>\<open>df[col]\<close> selects: none (a \<^verbatim>\<open>KeyError\<close>), one
  (a series), or several when the label is repeated (a frame, on which the series-only
  operations of the source fail).
\<close>

definition has_column :: "table \<Rightarrow> string \<Rightarrow> bool" where
  "has_column df c \<longleftrightarrow> c \<in> set (column_names df)"

definition columns_labelled :: "table \<Rightarrow> string \<Rightarrow> series list" where
  "columns_labelled df c = map snd (filter (\<lambda>p. fst p = c) (columns df))"

text \<open>\<^verbatim>\<open>df[col] = f(df[col])\<close> for a column-wise \<open>f\<close>: every column labelled \<open>col\<close> is
  replaced by its image and keeps its position.\<close>

definition map_column :: "table \<Rightarrow> string \<Rightarrow> (series \<Rightarrow> series) \<Rightarrow> table" where
  "map_column df c f =
     df\<lparr>columns := map (\<lambda>p. if fst p = c then (c, f (snd p)) else p) (columns df)\<rparr>"

text \<open>\<^verbatim>\<open>df.rename(columns={old: new})\<close>: every label equal to \<open>old\<close> becomes \<open>new\<close>; a label
  that does not occur is ignored.\<close>

definition rename_columns :: "table \<Rightarrow> string \<Rightarrow> string \<Rightarrow> table" where
  "rename_columns df old new =
     df\<lparr>columns := map (\<lambda>p. (if fst p = old then new else fst p, snd p)) (columns df)\<rparr>"

subsection \<open>The library\<close>

text \<open>
  What the pipeline needs from pandas and numpy beyond the operations modelled here:
  \<^item> \<open>parse_number\<close>: how \<^verbatim>\<open>pd.to_numeric\<close> reads a string (an integer, a float, or not at
    all); the spellings \<^verbatim>\<open>inf\<close> and \<^verbatim>\<open>-inf\<close> are handled before it is asked;
  \<^item> \<open>float_of_int\<close>: the float64 nearest to an integer;
  \<^item> \<open>float_trunc\<close>: the int64 that the cast of a finite float gives;
  \<^item> \<open>str_keeps_na\<close>: whether \<^verbatim>\<open>astype(str)\<close> leaves a missing value missing (pandas 3) or
    prints it like any other value (pandas 1 and 2);
  \<^item> \<open>infer_cell col v\<close>: the cell that the cell \<open>v\<close> of the raw column \<open>col\<close> becomes when
    \<^verbatim>\<open>pd.DataFrame\<close> infers the dtype of the column;
  \<^item> \<open>promote_cell col v\<close>: the cell that the cell \<open>v\<close> of the column \<open>col\<close> becomes when a
    merge widens the column to hold missing values;
  \<^item> \<open>restack_cell block r j\<close>: the cell in column \<open>j\<close> of the row \<open>r\<close> once
    \<^verbatim>\<open>pd.DataFrame(series_list).T\<close> has put the columns \<open>block\<close> into one array.
\<close>

datatype parsed = IntLit int | FloatLit string | Unparsable

record pandas_lib =
  parse_number :: "string \<Rightarrow> parsed"
  float_of_int :: "int \<Rightarrow> string"
  float_trunc :: "string \<Rightarrow> int"
  str_keeps_na :: bool
  infer_cell :: "series \<Rightarrow> pyval \<Rightarrow> pyval"
  promote_cell :: "series \<Rightarrow> pyval \<Rightarrow> pyval"
  restack_cell :: "series list \<Rightarrow> pyval list \<Rightarrow> nat \<Rightarrow> pyval"

text \<open>\<^verbatim>\<open>astype(str)\<close>: every cell is printed; a missing value is printed too, as \<^verbatim>\<open>None\<close>,
  \<^verbatim>\<open>nan\<close> or \<^verbatim>\<open><NA>\<close>, unless the library keeps it missing.\<close>

definition astype_str :: "pandas_lib \<Rightarrow> series \<Rightarrow> series" where
  "astype_str L s = map (\<lambda>v. if isna v \<and> str_keeps_na L then PNaN else PStr (py_str v)) s"

section \<open>Transformation engine\<close>

subsection \<open>Numeric conversion\<close>

definition int64_min :: int where
  "int64_min = - (2 ^ 63)"

definition int64_max :: int where
  "int64_max = 2 ^ 63 - 1"

definition uint64_max :: int where
  "uint64_max = 2 ^ 64 - 1"

definition nonfinite :: "string \<Rightarrow> bool" where
  "nonfinite r \<longleftrightarrow> r = ''inf'' \<or> r = ''-inf''"

text \<open>One cell under \<^verbatim>\<open>pd.to_numeric(..., errors="coerce")\<close>: a missing or unparsable value
  becomes \<^verbatim>\<open>nan\<close>.\<close>

fun coerce_numeric :: "pandas_lib \<Rightarrow> pyval \<Rightarrow> pyval" where
  "coerce_numeric L PNone = PNaN"
| "coerce_numeric L PNaN = PNaN"
| "coerce_numeric L PNA = PNaN"
| "coerce_numeric L (PInt i) = PInt i"
| "coerce_numeric L (PBool b) = PBool b"
| "coerce_numeric L (PFloat r) = PFloat r"
| "coerce_numeric L (PStr s) =
     (if s = ''inf'' then PFloat ''inf''
      else if s = ''-inf'' then PFloat ''-inf''
      else (case parse_number L s of
              IntLit i \<Rightarrow> PInt i
            | FloatLit r \<Rightarrow> PFloat r
            | Unparsable \<Rightarrow> PNaN))"

text \<open>
  The resulting series has one dtype. It is float64 as soon as one cell is a float or
  \<^verbatim>\<open>nan\<close>, or an integer that fits neither int64 nor uint64, or when an integer above
  int64 meets a negative one; else it is uint64 or int64 when one cell is an integer; else
  bool.
\<close>

definition is_floating :: "pyval \<Rightarrow> bool" where
  "is_floating v \<longleftrightarrow>
     (case v of
        PFloat _ \<Rightarrow> True
      | PNaN \<Rightarrow> True
      | PInt i \<Rightarrow> i < int64_min \<or> uint64_max < i
      | _ \<Rightarrow> False)"

definition is_integer :: "pyval \<Rightarrow> bool" where
  "is_integer v \<longleftrightarrow> (case v of PInt _ \<Rightarrow> True | _ \<Rightarrow> False)"

definition above_int64 :: "pyval \<Rightarrow> bool" where
  "above_int64 v \<longleftrightarrow> (case v of PInt i \<Rightarrow> int64_max < i | _ \<Rightarrow> False)"

definition is_negative :: "pyval \<Rightarrow> bool" where
  "is_negative v \<longleftrightarrow> (case v of PInt i \<Rightarrow> i < 0 | _ \<Rightarrow> False)"

definition int_of_bool :: "bool \<Rightarrow> int" where
  "int_of_bool b = (if b then 1 else 0)"

fun to_float :: "pandas_lib \<Rightarrow> pyval \<Rightarrow> pyval" where
  "to_float L (PInt i) = PFloat (float_of_int L i)"
| "to_float L (PBool b) = PFloat (float_of_int L (int_of_bool b))"
| "to_float L v = v"

fun to_int :: "pyval \<Rightarrow> pyval" where
  "to_int (PBool b) = PInt (int_of_bool b)"
| "to_int v = v"

definition to_numeric :: "pandas_lib \<Rightarrow> series \<Rightarrow> series" where
  "to_numeric L s =
     (let cells = map (coerce_numeric L) s in
      if list_ex is_floating cells \<or> (list_ex above_int64 cells \<and> list_ex is_negative cells)
      then map (to_float L) cells
      else if list_ex is_integer cells then map to_int cells
      else cells)"

text \<open>\<^verbatim>\<open>fillna(n)\<close> on a numeric series: only a float64 series holds \<^verbatim>\<open>nan\<close>, and the
  filler is stored as a float.\<close>

definition fillna_number :: "pandas_lib \<Rightarrow> int \<Rightarrow> series \<Rightarrow> series" where
  "fillna_number L n s = map (\<lambda>v. if v = PNaN then PFloat (float_of_int L n) else v) s"

text \<open>
  \<^verbatim>\<open>astype(int)\<close> on a numeric series. A float is cast to int64 by the library, and an
  infinity or \<^verbatim>\<open>nan\<close> raises; an integer of a uint64 series wraps around into int64.
\<close>

definition wrap_int64 :: "int \<Rightarrow> int" where
  "wrap_int64 i = (i + 2 ^ 63) mod 2 ^ 64 - 2 ^ 63"

fun int_cell :: "pandas_lib \<Rightarrow> pyval \<Rightarrow> pyval option" where
  "int_cell L (PFloat r) = (if nonfinite r then None else Some (PInt (float_trunc L r)))"
| "int_cell L (PInt i) = Some (PInt (wrap_int64 i))"
| "int_cell L (PBool b) = Some (PInt (int_of_bool b))"
| "int_cell L v = None"

definition astype_int :: "pandas_lib \<Rightarrow> series \<Rightarrow> error + series" where
  "astype_int L s =
     (if list_all (\<lambda>v. int_cell L v \<noteq> None) s then Inr (List.map_filter (int_cell L) s)
      else Inl IntCastingNaNError)"

subsection \<open>\<^verbatim>\<open>safe_cast_column\<close>\<close>

text \<open>
  When the label is repeated \<^verbatim>\<open>df[column]\<close> is a frame: \<^verbatim>\<open>astype(str)\<close> and \<^verbatim>\<open>fillna\<close> work on
  each of its columns, and \<^verbatim>\<open>pd.to_numeric\<close> raises a \<^verbatim>\<open>TypeError\<close>.
\<close>

definition safe_cast_column :: "pandas_lib \<Rightarrow> table \<Rightarrow> string \<Rightarrow> string \<Rightarrow> error + table" where
  "safe_cast_column L df column dtype =
     (if \<not> has_column df column then Inr df
      else
        (let dtype_lower = py_lower dtype in
         if dtype_lower = ''string'' then
           Inr (map_column df column (\<lambda>s. fillna (PStr []) (astype_str L s)))
         else if dtype_lower \<in> set [''int64'', ''int''] then
           (case columns_labelled df column of
              [s] \<Rightarrow>
                (case astype_int L (fillna_number L (- 1) (to_numeric L s)) of
                   Inl e \<Rightarrow> Inl e
                 | Inr s' \<Rightarrow> Inr (map_column df column (\<lambda>_. s')))
            | _ \<Rightarrow> Inl TypeError)
         else if dtype_lower \<in> set [''float64'', ''float''] then
           (case columns_labelled df column of
              [s] \<Rightarrow> Inr (map_column df column (\<lambda>_. fillna_number L 0 (to_numeric L s)))
            | _ \<Rightarrow> Inl TypeError)
         else
           Inr (map_column df column (astype_str L))))"

subsection \<open>\<^verbatim>\<open>clean_join_key\<close> and \<^verbatim>\<open>safe_merge\<close>\<close>

definition clean_series :: "pandas_lib \<Rightarrow> series \<Rightarrow> series" where
  "clean_series L s =
     fillna (PStr [])
       (replace_values [PStr ''nan'', PStr ''<NA>'', PStr ''None''] (PStr []) (astype_str L s))"

definition clean_join_key :: "pandas_lib \<Rightarrow> table \<Rightarrow> string \<Rightarrow> table" where
  "clean_join_key L df key_column =
     (if \<not> has_column df key_column then df
      else map_column df key_column (clean_series L))"

text \<open>
  \<^verbatim>\<open>left.merge(right, left_on=lk, right_on=rk, how="left")\<close>. pandas computes, for the
  rows of the left frame in order, the positions of the right rows whose key is equal
  (in the right frame's order), or no position when there is none; every column of the
  result is then read through these positions. The left columns keep their cells. A right
  column keeps its cells too when every left row has a partner; otherwise it is widened
  to hold missing values, its cells become what the library makes of them, and the rows
  without a partner get \<^verbatim>\<open>nan\<close>. At its only call site both key series hold strings, so
  keys match when the strings are equal.
\<close>

definition matching_rows :: "series \<Rightarrow> series \<Rightarrow> nat \<Rightarrow> (nat \<times> nat option) list" where
  "matching_rows lkeys rkeys i =
     (let js = filter (\<lambda>j. rkeys ! j = lkeys ! i) [0..<length rkeys] in
      if js = [] then [(i, None)] else map (\<lambda>j. (i, Some j)) js)"

definition join_index :: "series \<Rightarrow> series \<Rightarrow> (nat \<times> nat option) list" where
  "join_index lkeys rkeys = concat (map (matching_rows lkeys rkeys) [0..<length lkeys])"

definition take_left :: "(nat \<times> nat option) list \<Rightarrow> series \<Rightarrow> series" where
  "take_left idx s = map (\<lambda>p. s ! fst p) idx"

definition take_right :: "pandas_lib \<Rightarrow> (nat \<times> nat option) list \<Rightarrow> series \<Rightarrow> series" where
  "take_right L idx s =
     (if list_ex (\<lambda>p. snd p = None) idx then
        map (\<lambda>p. case snd p of None \<Rightarrow> PNaN | Some j \<Rightarrow> promote_cell L s (s ! j)) idx
      else map (\<lambda>p. case snd p of None \<Rightarrow> PNaN | Some j \<Rightarrow> s ! j) idx)"

text \<open>
  The labels of the result. When the two key labels are the same the right key column
  is dropped. A label that both frames then share gets the suffix \<^verbatim>\<open>_x\<close> on the left and
  \<^verbatim>\<open>_y\<close> on the right, and pandas raises a \<^verbatim>\<open>MergeError\<close> when a suffix makes a label occur
  again on its side that did not occur again before.
\<close>

definition occurs_before :: "string list \<Rightarrow> nat \<Rightarrow> bool" where
  "occurs_before xs p \<longleftrightarrow> xs ! p \<in> set (take p xs)"

definition suffix_clash :: "string list \<Rightarrow> string list \<Rightarrow> bool" where
  "suffix_clash old new \<longleftrightarrow>
     list_ex (\<lambda>p. occurs_before new p \<and> \<not> occurs_before old p) [0..<length new]"

definition right_columns :: "table \<Rightarrow> string \<Rightarrow> string \<Rightarrow> (string \<times> series) list" where
  "right_columns right lk rk =
     (if lk = rk then filter (\<lambda>c. fst c \<noteq> rk) (columns right) else columns right)"

definition left_labels :: "string list \<Rightarrow> string list \<Rightarrow> string list" where
  "left_labels lnames rnames = map (\<lambda>c. if c \<in> set rnames then c @ ''_x'' else c) lnames"

definition right_labels :: "string list \<Rightarrow> string list \<Rightarrow> string list" where
  "right_labels lnames rnames = map (\<lambda>c. if c \<in> set lnames then c @ ''_y'' else c) rnames"

definition labels_clash :: "string list \<Rightarrow> string list \<Rightarrow> bool" where
  "labels_clash lnames rnames \<longleftrightarrow>
     suffix_clash lnames (left_labels lnames rnames)
     \<or> suffix_clash rnames (right_labels lnames rnames)"

text \<open>A key label that the frame lacks raises a \<^verbatim>\<open>KeyError\<close>, one that is repeated a
  \<^verbatim>\<open>ValueError\<close>; the right key is looked up first.\<close>

definition merge_left :: "pandas_lib \<Rightarrow> table \<Rightarrow> table \<Rightarrow> string \<Rightarrow> string \<Rightarrow> error + table" where
  "merge_left L left right lk rk =
     (case columns_labelled right rk of
        [] \<Rightarrow> Inl KeyError
      | [rkeys] \<Rightarrow>
          (case columns_labelled left lk of
             [] \<Rightarrow> Inl KeyError
           | [lkeys] \<Rightarrow>
               (let idx = join_index lkeys rkeys;
                    rcols = right_columns right lk rk;
                    lnames = map fst (columns left);
                    rnames = map fst rcols
                in if labels_clash lnames rnames then Inl MergeError
                   else Inr \<lparr>nrows = length idx,
                             columns =
                               zip (left_labels lnames rnames)
                                 (map (\<lambda>c. take_left idx (snd c)) (columns left))
                               @ zip (right_labels lnames rnames)
                                   (map (\<lambda>c. take_right L idx (snd c)) rcols)\<rparr>)
           | _ \<Rightarrow> Inl ValueError)
      | _ \<Rightarrow> Inl ValueError)"

definition safe_merge :: "pandas_lib \<Rightarrow> table \<Rightarrow> table \<Rightarrow> string \<Rightarrow> string \<Rightarrow> error + table" where
  "safe_merge L left_df right_df left_key right_key =
     (let left_df = clean_join_key L left_df left_key;
          right_df = clean_join_key L right_df right_key
      in merge_left L left_df right_df left_key right_key)"

text \<open>
  The key normalisation in the words of the specification: a key is stringified, and a
  true null or one of the texts \<^verbatim>\<open>nan\<close>, \<^verbatim>\<open><NA>\<close>, \<^verbatim>\<open>None\<close> collapses to the empty string. It is
  compared below with what \<^verbatim>\<open>clean_join_key\<close> computes.
\<close>

definition normalized_key :: "pyval \<Rightarrow> string" where
  "normalized_key v =
     (if isna v \<or> py_str v \<in> {''nan'', ''<NA>'', ''None''} then [] else py_str v)"

subsection \<open>\<^verbatim>\<open>apply_transformations\<close>\<close>

text \<open>
  An operation is a tuple of strings whose first component is the action. Reading the
  first component of an empty tuple raises \<^verbatim>\<open>IndexError\<close>, unpacking a tuple of the wrong
  length raises \<^verbatim>\<open>ValueError\<close>, and naming a dataset that the store does not hold raises
  \<^verbatim>\<open>KeyError\<close>. The \<^verbatim>\<open>if\<close>/\<^verbatim>\<open>elif\<close> chain of the source has no final \<^verbatim>\<open>else\<close>.

  The working frame is a copy of the caller's frame and a joined dataset is a copy of the
  stored one, so the in-place assignments of the helpers are not visible outside; the
  model passes frames by value.
\<close>

type_synonym operation = "string list"

definition apply_operation ::
  "pandas_lib \<Rightarrow> (string \<rightharpoonup> table) \<Rightarrow> table \<Rightarrow> operation \<Rightarrow> error + table" where
  "apply_operation L dataframes result_df operation =
     (case operation of
        [] \<Rightarrow> Inl IndexError
      | action # args \<Rightarrow>
          if action = ''RENAME'' then
            (case args of
               [old_col, new_col] \<Rightarrow> Inr (rename_columns result_df old_col new_col)
             | _ \<Rightarrow> Inl ValueError)
          else if action = ''CAST'' then
            (case args of
               [column, dtype] \<Rightarrow> safe_cast_column L result_df column dtype
             | _ \<Rightarrow> Inl ValueError)
          else if action = ''JOIN'' then
            (case args of
               [tbl, left_key, right_key] \<Rightarrow>
                 (case dataframes tbl of
                    None \<Rightarrow> Inl KeyError
                  | Some df_to_merge \<Rightarrow> safe_merge L result_df df_to_merge left_key right_key)
             | _ \<Rightarrow> Inl ValueError)
          else Inr result_df)"

fun apply_transformations ::
  "pandas_lib \<Rightarrow> table \<Rightarrow> operation list \<Rightarrow> (string \<rightharpoonup> table) \<Rightarrow> error + table" where
  "apply_transformations L df [] dataframes = Inr df"
| "apply_transformations L df (operation # operations) dataframes =
     (case apply_operation L dataframes df operation of
        Inl e \<Rightarrow> Inl e
      | Inr result_df \<Rightarrow> apply_transformations L result_df operations dataframes)"

section \<open>Output formatter\<close>

text \<open>
  \<^verbatim>\<open>format_output_columns\<close> collects the mapped columns that exist, each renamed, and
  builds \<^verbatim>\<open>pd.DataFrame(series_list).T\<close>. A frame built from a list of series has one row
  per series and the series' common index as columns, so its transpose has the input's
  rows; built from the empty list it has neither rows nor columns. The series go through
  one array on the way, which can change the representation of a cell (an integer beside
  a float column comes back as a float): the cell in column \<open>j\<close> of row \<open>i\<close> is what the
  library makes of row \<open>i\<close> of the collected columns.

  When a mapped label is repeated in the input, \<^verbatim>\<open>df[old]\<close> is a frame and \<^verbatim>\<open>rename(new)\<close>
  takes the string for a function to apply to the row labels: a \<^verbatim>\<open>TypeError\<close>, or with no
  rows a \<^verbatim>\<open>ValueError\<close> when the frame is built.
\<close>

fun collect_series :: "table \<Rightarrow> (string \<times> string) list \<Rightarrow> error + (string \<times> series) list" where
  "collect_series df [] = Inr []"
| "collect_series df (m # ms) =
     (case columns_labelled df (fst m) of
        [] \<Rightarrow> collect_series df ms
      | [s] \<Rightarrow>
          (case collect_series df ms of
             Inl e \<Rightarrow> Inl e
           | Inr rest \<Rightarrow> Inr ((snd m, s) # rest))
      | _ \<Rightarrow> Inl (if nrows df = 0 then ValueError else TypeError))"

definition restack :: "pandas_lib \<Rightarrow> nat \<Rightarrow> series list \<Rightarrow> series list" where
  "restack L n block =
     map (\<lambda>j. map (\<lambda>i. restack_cell L block (map (\<lambda>s. s ! i) block) j) [0..<n])
       [0..<length block]"

definition format_output_columns ::
  "pandas_lib \<Rightarrow> table \<Rightarrow> (string \<times> string) list \<Rightarrow> error + table" where
  "format_output_columns L df column_mappings =
     (case collect_series df column_mappings of
        Inl e \<Rightarrow> Inl e
      | Inr series_list \<Rightarrow>
          if series_list = [] then Inr \<lparr>nrows = 0, columns = []\<rparr>
          else Inr \<lparr>nrows = nrows df,
                    columns = zip (map fst series_list)
                                (restack L (nrows df) (map snd series_list))\<rparr>)"

section \<open>Request planner\<close>

text \<open>
  An endpoint configuration as \<^verbatim>\<open>build_request_urls\<close> reads it: \<^verbatim>\<open>config.get("select", [])\<close>,
  \<^verbatim>\<open>config.get("filter", "")\<close> and \<^verbatim>\<open>config.get("key_filter")\<close>, and the entry
  \<^verbatim>\<open>"driving_view_col_name"\<close>, which may be absent from the dictionary (\<open>None\<close>), present with
  the value \<^verbatim>\<open>None\<close> (\<open>Some None\<close>) or present with a column label.
\<close>

record endpoint_config =
  cfg_select :: "string list"
  cfg_filter :: string
  cfg_key_filter :: "string option"
  cfg_driving_view_col_name :: "string option option"

text \<open>Python's truth value of an optional string: \<^verbatim>\<open>None\<close> and \<^verbatim>\<open>""\<close> are false.\<close>

definition truthy :: "string option \<Rightarrow> bool" where
  "truthy s \<longleftrightarrow> (case s of None \<Rightarrow> False | Some t \<Rightarrow> t \<noteq> [])"

text \<open>\<^verbatim>\<open>range(start, stop, step)\<close> for a positive step, and the slice \<^verbatim>\<open>xs[i:j]\<close>.\<close>

function py_range :: "nat \<Rightarrow> nat \<Rightarrow> nat \<Rightarrow> nat list" where
  "py_range i stop step =
     (if 0 < step \<and> i < stop then i # py_range (i + step) stop step else [])"
  by pat_completeness auto
termination
  by (relation "measure (\<lambda>(i, stop, step). stop - i)") auto

declare py_range.simps [simp del]

definition slice :: "'a list \<Rightarrow> nat \<Rightarrow> nat \<Rightarrow> 'a list" where
  "slice xs i j = take (j - i) (drop i xs)"

definition chunk_size :: nat where
  "chunk_size = 10"

text \<open>The driving values of a column: \<^verbatim>\<open>.dropna().astype(str).unique().tolist()\<close>.\<close>

definition driving_values :: "pandas_lib \<Rightarrow> series \<Rightarrow> string list" where
  "driving_values L s = map py_str (unique (astype_str L (dropna s)))"

text \<open>The body of the chunk loop: the URL built for one chunk of driving values.\<close>

definition chunk_url ::
  "string \<Rightarrow> string \<Rightarrow> string list \<Rightarrow> string \<Rightarrow> string \<Rightarrow> string list \<Rightarrow> string" where
  "chunk_url base_url endpoint select_clause extra_filter key_filter_col chunk =
     (let id_filter = join '' or '' (map (\<lambda>val. key_filter_col @ '' eq '' @ [CHR 0x27] @ val @ [CHR 0x27]) chunk);
          filter_str = (if extra_filter \<noteq> [] then id_filter @ '' and '' @ extra_filter
                        else id_filter);
          url = base_url @ endpoint @ ''?$filter='' @ filter_str
      in if select_clause \<noteq> [] then url @ ''&$select='' @ join '','' select_clause else url)"

text \<open>
  The generator is modelled by the list of URLs it yields, or the exception that its first
  step raises. The driving values are read from \<^verbatim>\<open>dataframes["df_users"]\<close>, as in the source.
  When the driving label is repeated the selection is a frame, which has no \<^verbatim>\<open>unique\<close>.
\<close>

definition build_request_urls ::
  "pandas_lib \<Rightarrow> string \<Rightarrow> string \<Rightarrow> endpoint_config \<Rightarrow> (string \<rightharpoonup> table)
     \<Rightarrow> error + string list" where
  "build_request_urls L base_url endpoint config dataframes =
     (let select_clause = cfg_select config;
          extra_filter = cfg_filter config;
          key_filter_col = cfg_key_filter config
      in
      if truthy key_filter_col \<and> cfg_driving_view_col_name config \<noteq> None then
        (case (key_filter_col, cfg_driving_view_col_name config) of
           (Some key_col, Some (Some driving_col)) \<Rightarrow>
             (case dataframes ''df_users'' of
                None \<Rightarrow> Inl KeyError
              | Some users \<Rightarrow>
                  (case columns_labelled users driving_col of
                     [] \<Rightarrow> Inl KeyError
                   | [s] \<Rightarrow>
                       (let id_list = driving_values L s in
                        Inr (map (\<lambda>i. chunk_url base_url endpoint select_clause extra_filter
                                        key_col (slice id_list i (i + chunk_size)))
                               (py_range 0 (length id_list) chunk_size)))
                   | _ \<Rightarrow> Inl AttributeError))
         | _ \<Rightarrow> Inl KeyError)
      else
        (let url = base_url @ endpoint @ ''?'';
             url = (if extra_filter \<noteq> [] then url @ ''$filter='' @ extra_filter else url);
             url = (if select_clause \<noteq> [] then
                      url @ (if extra_filter \<noteq> [] then ''&'' else '''') @ ''$select=''
                          @ join '','' select_clause
                    else url)
         in Inr [url]))"

section \<open>Paginated fetcher\<close>

text \<open>
  The outside world is a parameter: a state \<open>'w\<close> and the two calls the pipeline makes.
  \<open>http_get\<close> is \<^verbatim>\<open>requests.get(url, headers=headers, ...)\<close>; it answers with a status and a
  body, or raises. \<open>token_post\<close> is the request of \<^verbatim>\<open>get_access_token\<close>: it raises (\<open>None\<close>),
  or gives the \<^verbatim>\<open>access_token\<close> entry of the answer, which \<^verbatim>\<open>dict.get\<close> turns into \<^verbatim>\<open>None\<close>
  when the entry is missing.
\<close>

type_synonym json_record = "(string \<times> pyval) list"

record page =
  page_value :: "json_record list"
  next_link :: "string option"

text \<open>A response carries its status code and its JSON body as the loop reads it
  (\<^verbatim>\<open>json_data.get("value", [])\<close> and \<^verbatim>\<open>json_data.get("@odata.nextLink")\<close>); the body is \<open>None\<close>
  when \<^verbatim>\<open>response.json()\<close> raises.\<close>

datatype response = NoResponse | Response int "page option"

record 'w net =
  http_get :: "'w \<Rightarrow> string \<Rightarrow> (string \<rightharpoonup> string) \<Rightarrow> response \<times> 'w"
  token_post :: "'w \<Rightarrow> string option option \<times> 'w"

text \<open>
  The calls made to the outside are recorded in order: a GET with the call site (first
  attempt or retry), its URL, the \<^verbatim>\<open>Authorization\<close> header it was sent with and the status
  that came back (\<open>None\<close> when the call raised); and a token request with its result.
\<close>

datatype event =
    Get bool string "string option" "int option"
  | Token "string option option"

record 'w fetch_state =
  world :: 'w
  headers :: "string \<rightharpoonup> string"
  trace :: "event list"

datatype 'a outcome = Returned 'a | Raised error | OutOfFuel

definition status_of :: "response \<Rightarrow> int option" where
  "status_of r = (case r of NoResponse \<Rightarrow> None | Response st _ \<Rightarrow> Some st)"

text \<open>The f-string \<^verbatim>\<open>f"Bearer {token}"\<close>.\<close>

definition bearer :: "string option \<Rightarrow> string" where
  "bearer tok = ''Bearer '' @ (case tok of None \<Rightarrow> ''None'' | Some t \<Rightarrow> t)"

definition get_access_token :: "'w net \<Rightarrow> 'w fetch_state \<Rightarrow> (error + string option) \<times> 'w fetch_state" where
  "get_access_token N s =
     (let (r, w') = token_post N (world s);
          s' = s\<lparr>world := w', trace := trace s @ [Token r]\<rparr>
      in (case r of None \<Rightarrow> Inl AuthError | Some tok \<Rightarrow> Inr tok, s'))"

definition request_get ::
  "'w net \<Rightarrow> bool \<Rightarrow> 'w fetch_state \<Rightarrow> string \<Rightarrow> response \<times> 'w fetch_state" where
  "request_get N retry s url =
     (let (r, w') = http_get N (world s) url (headers s)
      in (r, s\<lparr>world := w',
                trace := trace s @ [Get retry url (headers s ''Authorization'') (status_of r)]\<rparr>))"

text \<open>What the loop does with the response it ends up with: any status but 200 raises,
  otherwise the body is read.\<close>

definition read_page :: "string \<Rightarrow> response \<Rightarrow> error + page" where
  "read_page endpoint_name r =
     (case r of
        NoResponse \<Rightarrow> Inl RequestException
      | Response st body \<Rightarrow>
          if st \<noteq> 200 then Inl (FetchFailed endpoint_name st)
          else (case body of None \<Rightarrow> Inl JSONDecodeError | Some p \<Rightarrow> Inr p))"

text \<open>
  One pass through the body of the \<^verbatim>\<open>while\<close> loop. The \<^verbatim>\<open>except\<close> clause logs and raises the
  exception again, so every exception leaves the loop. The assignment to
  \<^verbatim>\<open>headers["Authorization"]\<close> changes the caller's dictionary, which the state carries.
\<close>

definition fetch_page ::
  "'w net \<Rightarrow> string \<Rightarrow> 'w fetch_state \<Rightarrow> string \<Rightarrow> (error + page) \<times> 'w fetch_state" where
  "fetch_page N endpoint_name s url =
     (let (response, s1) = request_get N False s url in
      if status_of response = Some 401 then
        (case get_access_token N s1 of
           (Inl e, s2) \<Rightarrow> (Inl e, s2)
         | (Inr new_token, s2) \<Rightarrow>
             (let s3 = s2\<lparr>headers := (headers s2)(''Authorization'' \<mapsto> bearer new_token)\<rparr>;
                  (response, s4) = request_get N True s3 url
              in (read_page endpoint_name response, s4)))
      else (read_page endpoint_name response, s1))"

text \<open>The loop \<^verbatim>\<open>while url:\<close> may follow continuation links for ever, so it runs on fuel:
  one unit per page.\<close>

fun fetch_loop ::
  "nat \<Rightarrow> 'w net \<Rightarrow> string \<Rightarrow> 'w fetch_state \<Rightarrow> string option \<Rightarrow> json_record list
     \<Rightarrow> json_record list outcome \<times> 'w fetch_state" where
  "fetch_loop fuel N endpoint_name s None all_data = (Returned all_data, s)"
| "fetch_loop 0 N endpoint_name s (Some url) all_data =
     (if url = [] then (Returned all_data, s) else (OutOfFuel, s))"
| "fetch_loop (Suc fuel) N endpoint_name s (Some url) all_data =
     (if url = [] then (Returned all_data, s)
      else (case fetch_page N endpoint_name s url of
              (Inl e, s') \<Rightarrow> (Raised e, s')
            | (Inr p, s') \<Rightarrow>
                fetch_loop fuel N endpoint_name s' (next_link p) (all_data @ page_value p)))"

definition fetch_data_with_pagination ::
  "nat \<Rightarrow> 'w net \<Rightarrow> 'w fetch_state \<Rightarrow> string \<Rightarrow> string
     \<Rightarrow> json_record list outcome \<times> 'w fetch_state" where
  "fetch_data_with_pagination fuel N s url endpoint_name =
     fetch_loop fuel N endpoint_name s (Some url) []"

section \<open>The fetch phase of \<^verbatim>\<open>main\<close>\<close>





section \<open>Reading the trace\<close>

text \<open>The number of token requests in a trace, and the number of pages asked for (first
  attempts).\<close>

definition refresh_count :: "event list \<Rightarrow> nat" where
  "refresh_count tr = length (filter (\<lambda>e. case e of Token _ \<Rightarrow> True | _ \<Rightarrow> False) tr)"

definition page_count :: "event list \<Rightarrow> nat" where
  "page_count tr = length (filter (\<lambda>e. case e of Get retry _ _ _ \<Rightarrow> \<not> retry | _ \<Rightarrow> False) tr)"

text \<open>
  The retry policy, read off a trace of one fetch. The trace is a sequence of pages. A page
  starts with a first attempt. If that is answered 401, one token request follows; if it
  fails the trace ends, otherwise exactly one retry of the same URL follows, sent with the
  new bearer token, and the trace goes on to the next page only if the retry is answered
  200. A first attempt answered 200 is followed by the next page, and any other answer ends
  the trace.
\<close>

fun retry_policy :: "event list \<Rightarrow> bool" where
  "retry_policy [] = True"
| "retry_policy (Get retry u a st # es) =
     (if retry then False
      else if st = Some 401 then
        (case es of
           [Token None] \<Rightarrow> True
         | Token (Some tok) # Get True u' a' st' # es' \<Rightarrow>
             u' = u \<and> a' = Some (bearer tok)
             \<and> (if st' = Some 200 then retry_policy es' else es' = [])
         | _ \<Rightarrow> False)
      else if st = Some 200 then retry_policy es
      else es = [])"
| "retry_policy (Token r # es) = False"




section \<open>Example data\<close>

text \<open>
  A library for the examples. It prints missing values as pandas 2 does, reads decimal
  integer literals and no other string, prints the float of an integer with one decimal
  and truncates such a float back. It widens integers to floats where a column of numbers
  receives or holds a missing value, and where integers are stacked with floats.
\<close>

definition digit_value :: "char \<Rightarrow> nat option" where
  "digit_value c = map_of (zip ''0123456789'' [0, 1, 2, 3, 4, 5, 6, 7, 8, 9]) c"

fun digits_value :: "nat \<Rightarrow> string \<Rightarrow> nat option" where
  "digits_value acc [] = Some acc"
| "digits_value acc (c # cs) =
     (case digit_value c of None \<Rightarrow> None | Some d \<Rightarrow> digits_value (10 * acc + d) cs)"

definition parse_int_literal :: "string \<Rightarrow> parsed" where
  "parse_int_literal s =
     (case s of
        [] \<Rightarrow> Unparsable
      | c # cs \<Rightarrow>
          if c = CHR ''-'' then
            (if cs = [] then Unparsable
             else (case digits_value 0 cs of None \<Rightarrow> Unparsable | Some n \<Rightarrow> IntLit (- int n)))
          else (case digits_value 0 s of None \<Rightarrow> Unparsable | Some n \<Rightarrow> IntLit (int n)))"

definition is_number_or_missing :: "pyval \<Rightarrow> bool" where
  "is_number_or_missing v \<longleftrightarrow>
     (case v of PInt _ \<Rightarrow> True | PFloat _ \<Rightarrow> True | PNaN \<Rightarrow> True | PNone \<Rightarrow> True | _ \<Rightarrow> False)"

definition is_float_or_missing :: "pyval \<Rightarrow> bool" where
  "is_float_or_missing v \<longleftrightarrow>
     (case v of PFloat _ \<Rightarrow> True | PNaN \<Rightarrow> True | PNone \<Rightarrow> True | _ \<Rightarrow> False)"

definition widen :: "pyval \<Rightarrow> pyval" where
  "widen v = (case v of PInt i \<Rightarrow> PFloat (str_int i @ ''.0'') | PNone \<Rightarrow> PNaN | _ \<Rightarrow> v)"

definition integers_only :: pandas_lib where
  "integers_only =
     \<lparr>parse_number = parse_int_literal,
      float_of_int = (\<lambda>i. str_int i @ ''.0''),
      float_trunc = (\<lambda>r. case parse_int_literal (takeWhile (\<lambda>c. c \<noteq> CHR ''.'') r) of
                            IntLit i \<Rightarrow> i
                          | _ \<Rightarrow> int64_min),
      str_keeps_na = False,
      infer_cell = (\<lambda>col v.
        if list_all is_number_or_missing col \<and> list_ex is_float_or_missing col
           \<and> \<not> list_all (\<lambda>c. c = PNone) col
        then widen v else v),
      promote_cell = (\<lambda>col v. if list_all is_integer col then widen v else v),
      restack_cell = (\<lambda>block r j.
        if list_all (list_all is_number_or_missing) block
           \<and> list_ex (list_ex is_float_or_missing) block
        then widen (r ! j) else r ! j)\<rparr>"

definition users_frame :: table where
  "users_frame =
     \<lparr>nrows = 3,
      columns = [(''id'', [PInt 1, PInt 2, PInt 3]),
                 (''username'', [PStr ''ada'', PStr ''bob'', PStr ''cy'']),
                 (''status'', [PStr ''active'', PNone, PStr ''active''])]\<rparr>"

definition orders_frame :: table where
  "orders_frame =
     \<lparr>nrows = 3,
      columns = [(''order_id'', [PStr ''o1'', PStr ''o2'', PStr ''o3'']),
                 (''user_id'', [PStr ''1'', PStr ''1'', PStr ''nan'']),
                 (''status'', [PInt 0, PInt 1, PInt 2])]\<rparr>"

definition cast_frame :: table where
  "cast_frame = \<lparr>nrows = 3, columns = [(''amount'', [PStr ''7'', PStr ''abc'', PNone])]\<rparr>"

definition infinity_frame :: table where
  "infinity_frame = \<lparr>nrows = 3, columns = [(''amount'', [PStr ''7'', PStr ''inf'', PNone])]\<rparr>"

definition users_config :: endpoint_config where
  "users_config =
     \<lparr>cfg_select = [''id'', ''username'', ''status''],
      cfg_filter = ''active eq true'',
      cfg_key_filter = None,
      cfg_driving_view_col_name = None\<rparr>"

definition order_items_config :: endpoint_config where
  "order_items_config =
     \<lparr>cfg_select = [''item_id'', ''order_id''],
      cfg_filter = [],
      cfg_key_filter = Some ''order_id'',
      cfg_driving_view_col_name = Some (Some ''order_id'')\<rparr>"

definition orders_config :: endpoint_config where
  "orders_config =
     \<lparr>cfg_select = [''order_id'', ''user_id''],
      cfg_filter = ''total gt 5'',
      cfg_key_filter = Some ''user_id'',
      cfg_driving_view_col_name = Some (Some ''id'')\<rparr>"

text \<open>A users frame with twelve distinct ids, one of them seen twice, and a missing one.\<close>

definition twelve_users :: table where
  "twelve_users =
     \<lparr>nrows = 14,
      columns = [(''id'', [PStr ''a'', PStr ''b'', PStr ''c'', PStr ''a'', PStr ''d'', PNone,
                           PStr ''e'', PStr ''f'', PStr ''g'', PStr ''h'', PStr ''i'', PStr ''j'',
                           PStr ''k'', PStr ''l''])]\<rparr>"

text \<open>A server whose credentials expire after every page: each first attempt is answered
  401, each retry 200, and the first page links to a second one. The token it hands out
  is numbered by the requests served so far.\<close>

definition expiring_net :: "nat net" where
  "expiring_net =
     \<lparr>http_get = (\<lambda>w url hdrs.
        (if even w then Response 401 None
         else Response 200
                (Some \<lparr>page_value = [[(''id'', PInt (int w))]],
                       next_link = (if w < 3 then Some ''https://api/users?page=2'' else None)\<rparr>),
         Suc w)),
      token_post = (\<lambda>w. (Some (Some (''t'' @ str_nat w)), w))\<rparr>"

definition start_state :: "nat fetch_state" where
  "start_state = \<lparr>world = 0, headers = [''Authorization'' \<mapsto> ''Bearer stale''], trace = []\<rparr>"

text \<open>A server that rejects every credential.\<close>

definition rejecting_net :: "nat net" where
  "rejecting_net =
     \<lparr>http_get = (\<lambda>w url hdrs. (Response 401 None, Suc w)),
      token_post = (\<lambda>w. (Some (Some ''fresh''), w))\<rparr>"






section \<open>Properties\<close>


subsection \<open>Rename\<close>

lemma rename_columns_absent:
  "\<not> has_column df old \<Longrightarrow> rename_columns df old new = df"
proof -
  assume "\<not> has_column df old"
  then have "map (\<lambda>p. (if fst p = old then new else fst p, snd p)) (columns df) = columns df"
    by (intro map_idI) (auto simp: has_column_def column_names_def)
  then show ?thesis by (simp add: rename_columns_def)
qed

lemma rename_columns_inverse:
  assumes "\<not> has_column df b"
  shows "rename_columns (rename_columns df a b) b a = df"
proof -
  have "\<And>p. p \<in> set (columns df) \<Longrightarrow> fst p \<noteq> b"
    using assms by (auto simp: has_column_def column_names_def)
  then have "map ((\<lambda>p. (if fst p = b then a else fst p, snd p))
          \<circ> (\<lambda>p. (if fst p = a then b else fst p, snd p))) (columns df) = columns df"
    by (intro map_idI) auto
  then show ?thesis by (simp add: rename_columns_def)
qed

text \<open>
  C9. On a frame that has column \<open>a\<close> and no column \<open>b\<close>, the operations \<^verbatim>\<open>("RENAME", a, b)\<close>
  and then \<^verbatim>\<open>("RENAME", b, a)\<close> give back the frame itself: the same labels in the same
  order with the same cells. And a rename whose old column does not exist returns the
  frame unchanged; it does not raise.
\<close>

theorem rename_round_trip:
  "(has_column df a \<and> \<not> has_column df b \<longrightarrow>
      apply_transformations L df [[''RENAME'', a, b], [''RENAME'', b, a]] dataframes = Inr df)
   \<and> (\<not> has_column df old \<longrightarrow>
      apply_transformations L df [[''RENAME'', old, new]] dataframes = Inr df)"
  by (simp add: apply_operation_def rename_columns_inverse rename_columns_absent)

theorem rename_round_trip_witness:
  "(has_column users_frame ''id'' \<and> \<not> has_column users_frame ''user_id'')
   \<and> apply_transformations integers_only users_frame
       [[''RENAME'', ''id'', ''user_id''], [''RENAME'', ''user_id'', ''id'']] Map.empty
     = Inr users_frame
   \<and> \<not> has_column users_frame ''uid''
   \<and> apply_transformations integers_only users_frame [[''RENAME'', ''uid'', ''user_id'']] Map.empty
     = Inr users_frame"
  using rename_round_trip [of users_frame "''id''" "''user_id''" integers_only Map.empty "''uid''" "''user_id''"]
  by (simp add: has_column_def column_names_def users_frame_def)


subsection \<open>Unknown operation tags\<close>

text \<open>
  C3, as stated, fails: an operation tagged \<^verbatim>\<open>DROP\<close> raises nothing, the frame comes back
  as it went in.
\<close>

theorem unknown_action_counterexample:
  "apply_transformations integers_only users_frame [[''DROP'', ''status'']] Map.empty
     = Inr users_frame"
  by (simp add: apply_operation_def)

text \<open>
  C3, amended. An operation whose tag is none of \<^verbatim>\<open>RENAME\<close>, \<^verbatim>\<open>CAST\<close>, \<^verbatim>\<open>JOIN\<close> is skipped:
  it leaves the working frame as it is, whatever its arguments, and the operations after
  it are applied as if it were not in the list.
\<close>

theorem unknown_action_skipped:
  "action \<notin> {''RENAME'', ''CAST'', ''JOIN''} \<Longrightarrow>
   apply_transformations L df ((action # args) # operations) dataframes
     = apply_transformations L df operations dataframes"
  by (simp add: apply_operation_def)

theorem unknown_action_skipped_witness:
  "''DROP'' \<notin> {''RENAME'', ''CAST'', ''JOIN''} \<and>
   apply_transformations integers_only users_frame
     [[''DROP'', ''status''], [''RENAME'', ''id'', ''user_id'']] Map.empty
     = apply_transformations integers_only users_frame [[''RENAME'', ''id'', ''user_id'']] Map.empty"
  using unknown_action_skipped [of "''DROP''" integers_only users_frame "[''status'']"
      "[[''RENAME'', ''id'', ''user_id'']]" Map.empty]
  by simp

subsection \<open>Requests without a key filter\<close>

text \<open>
  C8. When the configuration has no key filter (\<^verbatim>\<open>None\<close> or empty), the planner yields
  exactly one URL: base and endpoint, \<^verbatim>\<open>?\<close>, then \<^verbatim>\<open>$filter=\<close> with the configured filter
  verbatim unless the filter is empty, then \<^verbatim>\<open>$select=\<close> with the selected columns joined
  by commas unless there are none, the latter preceded by \<^verbatim>\<open>&\<close> exactly when a filter
  clause stands before it.
\<close>

theorem plain_request_single_url:
  "\<not> truthy (cfg_key_filter config) \<Longrightarrow>
   build_request_urls L base_url endpoint config dataframes =
     Inr [base_url @ endpoint @ ''?''
          @ (if cfg_filter config = [] then [] else ''$filter='' @ cfg_filter config)
          @ (if cfg_select config = [] then []
             else (if cfg_filter config = [] then [] else ''&'') @ ''$select=''
                  @ join '','' (cfg_select config))]"
  by (simp add: build_request_urls_def Let_def)

theorem plain_request_single_url_witness:
  "\<not> truthy (cfg_key_filter users_config) \<and>
   build_request_urls integers_only ''https://api/'' ''users'' users_config Map.empty =
     Inr [''https://api/users?$filter=active eq true&$select=id,username,status'']"
  using plain_request_single_url [of users_config integers_only "''https://api/''" "''users''" Map.empty]
  by (simp add: users_config_def truthy_def)

subsection \<open>The dataset the driving values are read from\<close>

text \<open>
  C2, at the input where the code departs from it. With users and orders fetched, the
  configuration of \<^verbatim>\<open>order_items\<close> asks for the driving column \<^verbatim>\<open>order_id\<close>. The planner
  looks it up in \<^verbatim>\<open>df_users\<close>, which has no such column, and raises \<^verbatim>\<open>KeyError\<close>; the
  orders dataset, which holds the values, is never read.
\<close>

theorem driving_values_read_from_users:
  "build_request_urls L ''https://api/'' ''order_items'' order_items_config
     [''df_users'' \<mapsto> users_frame, ''df_orders'' \<mapsto> orders_frame] = Inl KeyError"
  by (simp add: build_request_urls_def order_items_config_def truthy_def columns_labelled_def
      users_frame_def)

subsection \<open>Credential renewal\<close>

text \<open>
  C1, as stated, fails: against a server whose credential expires after every page, one
  fetch of one URL with two pages returns both pages and has requested a token twice.
\<close>

theorem two_refreshes_counterexample:
  "fst (fetch_data_with_pagination 5 expiring_net start_state ''https://api/users?'' ''users'')
     = Returned [[(''id'', PInt 1)], [(''id'', PInt 3)]]
   \<and> refresh_count
        (trace (snd (fetch_data_with_pagination 5 expiring_net start_state ''https://api/users?''
                       ''users''))) = 2"
  by code_simp

lemma read_page_Inr: "read_page ep r = Inr p \<Longrightarrow> status_of r = Some 200"
  by (auto simp: read_page_def status_of_def split: response.splits if_splits option.splits)

lemma read_page_status:
  "status_of r = Some c \<Longrightarrow> c \<noteq> 200 \<Longrightarrow> read_page ep r = Inl (FetchFailed ep c)"
  by (auto simp: read_page_def status_of_def split: response.splits)

lemma fetch_page_trace:
  assumes "fetch_page N ep s url = (r, s')"
  shows "\<exists>seg. trace s' = trace s @ seg \<and>
     ((\<exists>st. seg = [Get False url (headers s ''Authorization'') st] \<and> st \<noteq> Some 401
          \<and> (isl r \<or> st = Some 200) \<and> headers s' = headers s)
    \<or> (seg = [Get False url (headers s ''Authorization'') (Some 401), Token None] \<and> isl r
          \<and> headers s' = headers s)
    \<or> (\<exists>tok st. seg = [Get False url (headers s ''Authorization'') (Some 401), Token (Some tok),
                         Get True url (Some (bearer tok)) st]
          \<and> (isl r \<or> st = Some 200)
          \<and> (\<forall>c. st = Some c \<and> c \<noteq> 200 \<longrightarrow> r = Inl (FetchFailed ep c))
          \<and> headers s' = (headers s)(''Authorization'' \<mapsto> bearer tok)))"
proof -
  obtain r1 w1 where g1: "http_get N (world s) url (headers s) = (r1, w1)" by (cases "http_get N (world s) url (headers s)")
  show ?thesis
  proof (cases "status_of r1 = Some 401")
    case False
    with assms g1 have "s' = s\<lparr>world := w1, trace := trace s @ [Get False url (headers s ''Authorization'') (status_of r1)]\<rparr>"
      and "r = read_page ep r1"
      by (auto simp: fetch_page_def request_get_def)
    with False show ?thesis
      by (cases "read_page ep r1") (auto dest: read_page_Inr)
  next
    case True
    obtain t w2 where g2: "token_post N w1 = (t, w2)" by (cases "token_post N w1")
    show ?thesis
    proof (cases t)
      case None
      with assms g1 g2 True show ?thesis
        by (auto simp: fetch_page_def request_get_def get_access_token_def)
    next
      case (Some tok)
      obtain r3 w3 where g3: "http_get N w2 url ((headers s)(''Authorization'' \<mapsto> bearer tok)) = (r3, w3)"
        by (cases "http_get N w2 url ((headers s)(''Authorization'' \<mapsto> bearer tok))")
      with assms g1 g2 True Some have
        "trace s' = trace s @ [Get False url (headers s ''Authorization'') (Some 401), Token (Some tok),
                         Get True url (Some (bearer tok)) (status_of r3)]"
        "r = read_page ep r3" "headers s' = (headers s)(''Authorization'' \<mapsto> bearer tok)"
        by (auto simp: fetch_page_def request_get_def get_access_token_def)
      then show ?thesis
        by (cases "read_page ep r3") (auto dest: read_page_Inr simp: read_page_status)
    qed
  qed
qed


lemma fetch_loop_policy:
  "fetch_loop fuel N ep s url acc = (out, s') \<Longrightarrow>
   \<exists>seg. trace s' = trace s @ seg \<and> retry_policy seg \<and> refresh_count seg \<le> page_count seg
     \<and> (\<forall>u a st. Get True u a (Some st) \<in> set seg \<and> st \<noteq> 200
            \<longrightarrow> out = Raised (FetchFailed ep st))"
proof (induction fuel N ep s url acc rule: fetch_loop.induct)
  case (1 fuel N ep s acc)
  then show ?case by (simp add: refresh_count_def page_count_def)
next
  case (2 N ep s url acc)
  then show ?case by (auto simp: refresh_count_def page_count_def split: if_splits)
next
  case (3 fuel N ep s url acc)
  show ?case
  proof (cases "url = []")
    case True
    with 3(2) show ?thesis by (simp add: refresh_count_def page_count_def)
  next
    case False
    obtain r s1 where fp: "fetch_page N ep s url = (r, s1)" by (cases "fetch_page N ep s url")
    from fetch_page_trace [OF fp] obtain seg1 where
      tr1: "trace s1 = trace s @ seg1" and
      shape: "(\<exists>st. seg1 = [Get False url (headers s ''Authorization'') st] \<and> st \<noteq> Some 401
                 \<and> (isl r \<or> st = Some 200))
        \<or> (seg1 = [Get False url (headers s ''Authorization'') (Some 401), Token None] \<and> isl r)
        \<or> (\<exists>tok st. seg1 = [Get False url (headers s ''Authorization'') (Some 401),
                               Token (Some tok), Get True url (Some (bearer tok)) st]
              \<and> (isl r \<or> st = Some 200)
              \<and> (\<forall>c. st = Some c \<and> c \<noteq> 200 \<longrightarrow> r = Inl (FetchFailed ep c)))"
      by blast
    show ?thesis
    proof (cases r)
      case (Inl e)
      with 3(2) False fp have "out = Raised e" "s' = s1" by simp_all
      with tr1 shape Inl show ?thesis
        by (intro exI [of _ seg1]) (auto simp: refresh_count_def page_count_def)
    next
      case (Inr p)
      with 3(2) False fp have
        rest: "fetch_loop fuel N ep s1 (next_link p) (acc @ page_value p) = (out, s')" by simp
      from 3(1) [OF False fp [symmetric] Inr rest] obtain seg2 where
        tr2: "trace s' = trace s1 @ seg2" and pol2: "retry_policy seg2"
        and cnt2: "refresh_count seg2 \<le> page_count seg2"
        and fatal2: "\<forall>u a st. Get True u a (Some st) \<in> set seg2 \<and> st \<noteq> 200
            \<longrightarrow> out = Raised (FetchFailed ep st)"
        by blast
      from shape Inr have shape': "(\<exists>a. seg1 = [Get False url a (Some 200)])
          \<or> (\<exists>a tok. seg1 = [Get False url a (Some 401), Token (Some tok),
                               Get True url (Some (bearer tok)) (Some 200)])"
        by auto
      from shape' pol2 have "retry_policy (seg1 @ seg2)" by auto
      moreover from shape' cnt2 have "refresh_count (seg1 @ seg2) \<le> page_count (seg1 @ seg2)"
        by (auto simp: refresh_count_def page_count_def)
      moreover from shape' fatal2 have "\<forall>u a st. Get True u a (Some st) \<in> set (seg1 @ seg2) \<and> st \<noteq> 200
            \<longrightarrow> out = Raised (FetchFailed ep st)"
        by auto
      moreover from tr1 tr2 have "trace s' = trace s @ (seg1 @ seg2)" by simp
      ultimately show ?thesis by blast
    qed
  qed
qed

text \<open>
  C1, amended. For every page URL the fetcher renews the credential at most once: when the
  first attempt is answered 401 it requests one token and retries the same URL exactly
  once with the new bearer token, and if the retry is answered anything but 200, a second
  401 included, the fetch raises \<open>FetchFailed\<close> with that status. The trace of a fetch is a
  sequence of such pages, so the token requests of one fetch are at most as many as the
  pages it asked for.
\<close>

theorem fetch_retry_policy:
  "fetch_data_with_pagination fuel N s url endpoint_name = (out, s') \<Longrightarrow>
   \<exists>seg. trace s' = trace s @ seg \<and> retry_policy seg \<and> refresh_count seg \<le> page_count seg
     \<and> (\<forall>u a st. Get True u a (Some st) \<in> set seg \<and> st \<noteq> 200
            \<longrightarrow> out = Raised (FetchFailed endpoint_name st))"
  unfolding fetch_data_with_pagination_def by (rule fetch_loop_policy)


theorem fetch_retry_policy_witness:
  "fst (fetch_data_with_pagination 5 rejecting_net start_state ''https://api/users?'' ''users'')
     = Raised (FetchFailed ''users'' 401)
   \<and> (\<exists>seg. trace (snd (fetch_data_with_pagination 5 rejecting_net start_state
                           ''https://api/users?'' ''users''))
              = trace start_state @ seg
          \<and> Get True ''https://api/users?'' (Some ''Bearer fresh'') (Some 401) \<in> set seg
          \<and> retry_policy seg \<and> refresh_count seg \<le> page_count seg)"
proof -
  let ?run = "fetch_data_with_pagination 5 rejecting_net start_state ''https://api/users?'' ''users''"
  have e: "?run = (fst ?run, snd ?run)" by simp
  have v: "fst ?run = Raised (FetchFailed ''users'' 401)"
    "trace (snd ?run) = [Get False ''https://api/users?'' (Some ''Bearer stale'') (Some 401),
        Token (Some (Some ''fresh'')),
        Get True ''https://api/users?'' (Some ''Bearer fresh'') (Some 401)]"
    "trace start_state = []"
    by code_simp+
  from fetch_retry_policy [OF e] obtain seg where
    "trace (snd ?run) = trace start_state @ seg" "retry_policy seg"
    "refresh_count seg \<le> page_count seg"
    by blast
  with v show ?thesis by (intro conjI exI [of _ seg]) simp_all
qed


subsection \<open>The renewed credential is shared\<close>















subsection \<open>Chunked requests\<close>

lemma unique_from_set: "set (unique_from seen xs) = set xs - set seen"
  by (induction xs arbitrary: seen) auto

lemma unique_from_distinct: "distinct (unique_from seen xs)"
  by (induction xs arbitrary: seen) (auto simp: unique_from_set)

lemma remdups_snoc:
  "remdups (xs @ [x]) = remdups (filter (\<lambda>y. y \<notin> set [x]) xs) @ remdups [x]"
  by (induction xs) auto

lemma unique_from_first_seen:
  "unique_from seen xs = rev (remdups (rev (filter (\<lambda>x. x \<notin> set seen) xs)))"
proof (induction xs arbitrary: seen)
  case Nil
  then show ?case by simp
next
  case (Cons x xs)
  show ?case
  proof (cases "x \<in> set seen")
    case True
    with Cons show ?thesis by simp
  next
    case False
    let ?ys = "filter (\<lambda>y. y \<notin> set seen) xs"
    have f: "filter (\<lambda>y. y \<notin> set [x]) (rev ?ys) = rev (filter (\<lambda>y. y \<notin> set (x # seen)) xs)"
      by (simp add: rev_filter [symmetric] conj_commute)
    have "rev (remdups (rev (filter (\<lambda>y. y \<notin> set seen) (x # xs))))
            = rev (remdups (rev ?ys @ [x]))"
      using False by simp
    also have "\<dots> = rev (remdups (filter (\<lambda>y. y \<notin> set [x]) (rev ?ys)) @ remdups [x])"
      by (simp only: remdups_snoc)
    also have "\<dots> = x # rev (remdups (rev (filter (\<lambda>y. y \<notin> set (x # seen)) xs)))"
      by (simp only: f) simp
    also have "\<dots> = unique_from seen (x # xs)"
      using False Cons [of "x # seen"] by simp
    finally show ?thesis by simp
  qed
qed

lemma remdups_map_inj: "inj f \<Longrightarrow> remdups (map f xs) = map f (remdups xs)"
  by (induction xs) (auto simp: inj_image_mem_iff)

lemma unique_first_seen: "unique xs = rev (remdups (rev xs))"
  by (simp add: unique_def unique_from_first_seen)

lemma astype_str_dropna:
  "astype_str L (dropna s) = map (\<lambda>v. PStr (py_str v)) (dropna s)"
  by (simp add: astype_str_def dropna_def)

lemma driving_values_distinct: "distinct (driving_values L s)"
proof -
  have "distinct (unique (astype_str L (dropna s)))"
    by (simp add: unique_def unique_from_distinct)
  moreover have "inj_on py_str (set (unique (astype_str L (dropna s))))"
    by (auto simp: unique_def unique_from_set astype_str_dropna inj_on_def)
  ultimately show ?thesis by (simp add: driving_values_def distinct_map)
qed

lemma driving_values_first_seen:
  "driving_values L s = rev (remdups (rev (map py_str (filter (\<lambda>v. \<not> isna v) s))))"
proof -
  let ?vs = "filter (\<lambda>v. \<not> isna v) s"
  have inj: "inj PStr" by (simp add: inj_on_def)
  have "unique (astype_str L (dropna s)) = rev (remdups (rev (map PStr (map py_str ?vs))))"
    by (simp only: astype_str_dropna unique_first_seen) (simp add: dropna_def o_def)
  also have "\<dots> = rev (remdups (map PStr (rev (map py_str ?vs))))"
    by (simp only: rev_map)
  also have "\<dots> = map PStr (rev (remdups (rev (map py_str ?vs))))"
    by (simp only: remdups_map_inj [OF inj] rev_map)
  finally show ?thesis by (simp add: driving_values_def o_def)
qed

lemma py_range_length:
  "0 < c \<Longrightarrow> length (py_range i n c) = (n - i + c - 1) div c"
proof (induction i n c rule: py_range.induct)
  case (1 i stop step)
  show ?case
  proof (cases "i < stop")
    case True
    with 1 have len: "length (py_range i stop step) = Suc ((stop - (i + step) + step - 1) div step)"
      by (simp add: py_range.simps [of i])
    show ?thesis
    proof (cases "i + step \<le> stop")
      case True
      define a where "a = stop - (i + step) + step - 1"
      from True 1(2) have "stop - i + step - 1 = a + step"
        unfolding a_def by linarith
      moreover have "(a + step) div step = Suc (a div step)"
        using 1(2) by (simp add: div_add_self2)
      ultimately have "(stop - i + step - 1) div step = Suc (a div step)"
        by (simp only:)
      then have "(stop - i + step - 1) div step = Suc ((stop - (i + step) + step - 1) div step)"
        unfolding a_def .
      with len show ?thesis by (simp only:)
    next
      case False
      with True 1(2) have a: "(stop - (i + step) + step - 1) div step = 0"
        by simp
      from False True 1(2) have "step * 1 \<le> stop - i + step - 1" "stop - i + step - 1 < step * Suc 1"
        by simp_all
      then have "(stop - i + step - 1) div step = 1"
        by (rule div_nat_eqI)
      with len a show ?thesis by simp
    qed
  next
    case False
    with 1(2) show ?thesis by (simp add: py_range.simps [of i])
  qed
qed

lemma py_range_concat_slices:
  "0 < c \<Longrightarrow> concat (map (\<lambda>i. slice xs i (i + c)) (py_range i (length xs) c)) = drop i xs"
proof (induction i "length xs" c rule: py_range.induct)
  case (1 i step)
  show ?case
  proof (cases "i < length xs")
    case True
    with 1 have "concat (map (\<lambda>i. slice xs i (i + step)) (py_range i (length xs) step))
        = take step (drop i xs) @ drop (i + step) xs"
      by (simp add: py_range.simps [of i] slice_def)
    also have "\<dots> = drop i xs"
      by (metis append_take_drop_id drop_drop add.commute)
    finally show ?thesis .
  next
    case False
    then show ?thesis by (simp add: py_range.simps [of i])
  qed
qed

lemma py_range_bound: "j \<in> set (py_range i n c) \<Longrightarrow> j < n"
proof (induction i n c rule: py_range.induct)
  case (1 i stop step)
  then show ?case
    by (cases "0 < step \<and> i < stop") (auto simp: py_range.simps [of i])
qed


lemma distinct_concat_unique_index:
  assumes "distinct (concat xss)" and "\<forall>xs \<in> set xss. xs \<noteq> []"
    and "j < length xss" and "k < length xss" and "v \<in> set (xss ! j)" and "v \<in> set (xss ! k)"
  shows "j = k"
proof -
  from assms(1) have d: "distinct (removeAll [] xss)"
    and disj: "\<And>ys zs. ys \<in> set xss \<Longrightarrow> zs \<in> set xss \<Longrightarrow> ys \<noteq> zs \<Longrightarrow> set ys \<inter> set zs = {}"
    by (auto simp: distinct_concat_iff)
  from assms(2) have "[] \<notin> set xss" by auto
  then have "removeAll [] xss = xss" by (rule removeAll_id)
  with d have dx: "distinct xss" by simp
  have "xss ! j = xss ! k"
  proof (rule ccontr)
    assume "xss ! j \<noteq> xss ! k"
    with disj [of "xss ! j" "xss ! k"] assms(3,4) have "set (xss ! j) \<inter> set (xss ! k) = {}"
      by simp
    with assms(5,6) show False by auto
  qed
  with dx assms(3,4) show ?thesis by (simp add: nth_eq_iff_index_eq)
qed

lemma concat_unique_chunk:
  assumes "concat chunks = ids" and "\<forall>c \<in> set chunks. c \<noteq> []" and "distinct ids"
  shows "\<forall>v \<in> set ids. \<exists>!j. j < length chunks \<and> v \<in> set (chunks ! j)"
proof
  fix v assume "v \<in> set ids"
  with assms(1) have "v \<in> set (concat chunks)" by simp
  then obtain c where "c \<in> set chunks" "v \<in> set c" by auto
  then obtain j where j: "j < length chunks" "v \<in> set (chunks ! j)"
    by (metis in_set_conv_nth)
  have dc: "distinct (concat chunks)" by (simp only: assms(1) assms(3))
  have "k = j" if "k < length chunks" "v \<in> set (chunks ! k)" for k
    by (rule distinct_concat_unique_index [OF dc assms(2) that(1) j(1) that(2) j(2)])
  with j show "\<exists>!j. j < length chunks \<and> v \<in> set (chunks ! j)" by blast
qed

lemma join_concat: "join sep xs = drop (length sep) (concat (map (\<lambda>x. sep @ x) xs))"
  by (induction sep xs rule: join.induct) simp_all

lemma equality_test_inj:
  "key @ '' eq '' @ [CHR 0x27] @ v @ [CHR 0x27] = key @ '' eq '' @ [CHR 0x27] @ w @ [CHR 0x27]
     \<Longrightarrow> v = w"
  by simp

text \<open>
  C4. When the key filter is present (with its driving column, found once in the users
  frame), and the driving column yields the value sequence \<open>driving_values L s\<close> of length
  \<open>N\<close>, the planner yields one URL per chunk, in chunk order. There are \<open>\<lceil>N / chunk_size\<rceil>\<close>
  chunks and their concatenation is the value sequence, whose values are pairwise distinct
  and in order of first appearance (nulls dropped, printed as strings). The URL of a chunk
  is the base and endpoint, \<^verbatim>\<open>?$filter=\<close>, the equality tests \<^verbatim>\<open>key eq 'value'\<close> of the
  values of the chunk joined by \<^verbatim>\<open>or\<close>, then the configured filter after \<^verbatim>\<open>and\<close> and the
  selection after \<^verbatim>\<open>&$select=\<close> when there are any. The test of every value stands in the
  predicate of exactly one URL, every chunk is non-empty and holds at most \<open>chunk_size\<close>
  values, and no value gives no URL.
\<close>

theorem chunked_requests:
  assumes "cfg_key_filter config = Some key_col" and "key_col \<noteq> []"
    and "cfg_driving_view_col_name config = Some (Some driving_col)"
    and "dataframes ''df_users'' = Some users"
    and "columns_labelled users driving_col = [s]"
  shows "\<exists>chunks.
      build_request_urls L base_url endpoint config dataframes
        = Inr (map (\<lambda>chunk.
                  base_url @ endpoint @ ''?$filter=''
                  @ join '' or ''
                      (map (\<lambda>val. key_col @ '' eq '' @ [CHR 0x27] @ val @ [CHR 0x27]) chunk)
                  @ (if cfg_filter config = [] then [] else '' and '' @ cfg_filter config)
                  @ (if cfg_select config = [] then []
                     else ''&$select='' @ join '','' (cfg_select config)))
                 chunks)
    \<and> length chunks = (length (driving_values L s) + chunk_size - 1) div chunk_size
    \<and> concat chunks = driving_values L s
    \<and> distinct (driving_values L s)
    \<and> (\<forall>v \<in> set (driving_values L s).
          \<exists>!j. j < length chunks
             \<and> key_col @ '' eq '' @ [CHR 0x27] @ v @ [CHR 0x27]
                 \<in> set (map (\<lambda>val. key_col @ '' eq '' @ [CHR 0x27] @ val @ [CHR 0x27])
                          (chunks ! j)))
    \<and> (\<forall>c \<in> set chunks. c \<noteq> [] \<and> length c \<le> chunk_size)
    \<and> (driving_values L s = [] \<longrightarrow> chunks = [])
    \<and> driving_values L s = rev (remdups (rev (map py_str (filter (\<lambda>v. \<not> isna v) s))))"
proof -
  define ids where "ids = driving_values L s"
  define chunks where
    "chunks = map (\<lambda>i. slice ids i (i + chunk_size)) (py_range 0 (length ids) chunk_size)"
  define test where "test = (\<lambda>val. key_col @ '' eq '' @ [CHR 0x27] @ val @ [CHR 0x27])"
  define url where "url = (\<lambda>chunk.
                  base_url @ endpoint @ ''?$filter='' @ join '' or '' (map test chunk)
                  @ (if cfg_filter config = [] then [] else '' and '' @ cfg_filter config)
                  @ (if cfg_select config = [] then []
                     else ''&$select='' @ join '','' (cfg_select config)))"
  have pos: "0 < chunk_size" by (simp add: chunk_size_def)
  have cu: "chunk_url base_url endpoint (cfg_select config) (cfg_filter config) key_col = url"
    by (rule ext) (simp add: chunk_url_def url_def test_def Let_def)
  have "build_request_urls L base_url endpoint config dataframes
        = Inr (map (chunk_url base_url endpoint (cfg_select config) (cfg_filter config) key_col)
                 chunks)"
    unfolding chunks_def ids_def
    using assms by (simp add: build_request_urls_def truthy_def Let_def o_def)
  then have urls: "build_request_urls L base_url endpoint config dataframes = Inr (map url chunks)"
    by (simp only: cu)
  have len: "length chunks = (length ids + chunk_size - 1) div chunk_size"
    unfolding chunks_def using py_range_length [OF pos, of 0 "length ids"] by simp
  have cat: "concat chunks = ids"
    unfolding chunks_def using py_range_concat_slices [OF pos, of ids 0] by simp
  have dist: "distinct ids"
    unfolding ids_def by (rule driving_values_distinct)
  have ne: "\<forall>c \<in> set chunks. c \<noteq> [] \<and> length c \<le> chunk_size"
    unfolding chunks_def using pos by (auto simp: slice_def dest: py_range_bound)
  then have nn: "\<forall>c \<in> set chunks. c \<noteq> []" by blast
  have inj: "test v \<in> set (map test c) \<longleftrightarrow> v \<in> set c" for v c
    by (auto simp: test_def)
  have one: "\<forall>v \<in> set ids. \<exists>!j. j < length chunks \<and> test v \<in> set (map test (chunks ! j))"
    unfolding inj by (rule concat_unique_chunk [OF cat nn dist])
  have empty: "ids = [] \<longrightarrow> chunks = []"
    unfolding chunks_def by (simp add: py_range.simps [of 0 0])
  have first: "ids = rev (remdups (rev (map py_str (filter (\<lambda>v. \<not> isna v) s))))"
    unfolding ids_def by (rule driving_values_first_seen)
  have all: "build_request_urls L base_url endpoint config dataframes = Inr (map url chunks)
    \<and> length chunks = (length ids + chunk_size - 1) div chunk_size
    \<and> concat chunks = ids
    \<and> distinct ids
    \<and> (\<forall>v \<in> set ids. \<exists>!j. j < length chunks \<and> test v \<in> set (map test (chunks ! j)))
    \<and> (\<forall>c \<in> set chunks. c \<noteq> [] \<and> length c \<le> chunk_size)
    \<and> (ids = [] \<longrightarrow> chunks = [])
    \<and> ids = rev (remdups (rev (map py_str (filter (\<lambda>v. \<not> isna v) s))))"
    by (intro conjI) (fact urls len cat dist one ne empty first)+
  show ?thesis
    apply (rule exI [where x = chunks])
    apply (insert all)
    apply (unfold ids_def url_def test_def)
    apply assumption
    done
qed

theorem chunked_requests_witness:
  "cfg_key_filter orders_config = Some ''user_id'' \<and> ''user_id'' \<noteq> []
   \<and> cfg_driving_view_col_name orders_config = Some (Some ''id'')
   \<and> [''df_users'' \<mapsto> twelve_users] ''df_users'' = Some twelve_users
   \<and> columns_labelled twelve_users ''id''
        = [[PStr ''a'', PStr ''b'', PStr ''c'', PStr ''a'', PStr ''d'', PNone, PStr ''e'',
            PStr ''f'', PStr ''g'', PStr ''h'', PStr ''i'', PStr ''j'', PStr ''k'', PStr ''l'']]
   \<and> build_request_urls integers_only ''https://api/'' ''orders'' orders_config
         [''df_users'' \<mapsto> twelve_users]
        = Inr [''https://api/orders?$filter=user_id eq 'a' or user_id eq 'b' or user_id eq 'c' or user_id eq 'd' or user_id eq 'e' or user_id eq 'f' or user_id eq 'g' or user_id eq 'h' or user_id eq 'i' or user_id eq 'j' and total gt 5&$select=order_id,user_id'',
               ''https://api/orders?$filter=user_id eq 'k' or user_id eq 'l' and total gt 5&$select=order_id,user_id'']
   \<and> (\<exists>chunks. length chunks = 2
          \<and> concat chunks = [''a'', ''b'', ''c'', ''d'', ''e'', ''f'', ''g'', ''h'', ''i'', ''j'',
                              ''k'', ''l''])"
proof -
  define s where
    "s = [PStr ''a'', PStr ''b'', PStr ''c'', PStr ''a'', PStr ''d'', PNone, PStr ''e'',
            PStr ''f'', PStr ''g'', PStr ''h'', PStr ''i'', PStr ''j'', PStr ''k'', PStr ''l'']"
  have h1: "cfg_key_filter orders_config = Some ''user_id''" by code_simp
  have h2: "''user_id'' \<noteq> []" by simp
  have h3: "cfg_driving_view_col_name orders_config = Some (Some ''id'')" by code_simp
  have h4: "[''df_users'' \<mapsto> twelve_users] ''df_users'' = Some twelve_users" by simp
  have h5: "columns_labelled twelve_users ''id'' = [s]" unfolding s_def by code_simp
  have d: "driving_values integers_only s
             = [''a'', ''b'', ''c'', ''d'', ''e'', ''f'', ''g'', ''h'', ''i'', ''j'', ''k'', ''l'']"
    unfolding s_def by code_simp
  have u: "build_request_urls integers_only ''https://api/'' ''orders'' orders_config
         [''df_users'' \<mapsto> twelve_users]
        = Inr [''https://api/orders?$filter=user_id eq 'a' or user_id eq 'b' or user_id eq 'c' or user_id eq 'd' or user_id eq 'e' or user_id eq 'f' or user_id eq 'g' or user_id eq 'h' or user_id eq 'i' or user_id eq 'j' and total gt 5&$select=order_id,user_id'',
               ''https://api/orders?$filter=user_id eq 'k' or user_id eq 'l' and total gt 5&$select=order_id,user_id'']"
    by code_simp
  have "\<exists>chunks. length chunks
                  = (length (driving_values integers_only s) + chunk_size - 1) div chunk_size
          \<and> concat chunks = driving_values integers_only s"
    using chunked_requests [of orders_config "''user_id''" "''id''"
        "[''df_users'' \<mapsto> twelve_users]" twelve_users s integers_only "''https://api/''"
        "''orders''", OF h1 h2 h3 h4 h5]
    apply (elim exE conjE)
    apply (rule_tac x = chunks in exI)
    apply (intro conjI)
     apply assumption+
    done
  then have e: "\<exists>chunks. length chunks = 2
          \<and> concat chunks = [''a'', ''b'', ''c'', ''d'', ''e'', ''f'', ''g'', ''h'', ''i'', ''j'',
                              ''k'', ''l'']"
    unfolding d by (simp add: chunk_size_def)
  show ?thesis
    apply (intro conjI)
          apply (rule h1)
         apply (rule h2)
        apply (rule h3)
       apply (rule h4)
      apply (rule h5 [unfolded s_def])
     apply (rule u)
    apply (rule e)
    done
qed



subsection \<open>Output formatter\<close>

lemma has_column_labelled: "has_column df c \<longleftrightarrow> columns_labelled df c \<noteq> []"
  by (auto simp: has_column_def column_names_def columns_labelled_def filter_empty_conv)

lemma collect_series_unique:
  "\<forall>m \<in> set ms. length (columns_labelled df (fst m)) \<le> 1 \<Longrightarrow>
   collect_series df ms
     = Inr (concat (map (\<lambda>m. map (\<lambda>s. (snd m, s)) (columns_labelled df (fst m))) ms))"
proof (induction ms)
  case Nil
  show ?case by simp
next
  case (Cons m ms)
  then have rest: "collect_series df ms
     = Inr (concat (map (\<lambda>m. map (\<lambda>s. (snd m, s)) (columns_labelled df (fst m))) ms))"
    by simp
  from Cons.prems have "length (columns_labelled df (fst m)) \<le> 1" by simp
  then consider "columns_labelled df (fst m) = []" | s where "columns_labelled df (fst m) = [s]"
    by (cases "columns_labelled df (fst m)") (auto simp: length_Suc_conv)
  then show ?case by cases (simp_all add: rest)
qed







lemma format_no_mapped_column:
  "\<forall>m \<in> set ms. \<not> has_column df (fst m) \<Longrightarrow>
   format_output_columns L df ms = Inr \<lparr>nrows = 0, columns = []\<rparr>"
proof -
  assume a: "\<forall>m \<in> set ms. \<not> has_column df (fst m)"
  then have "\<forall>m \<in> set ms. length (columns_labelled df (fst m)) \<le> 1"
    by (simp add: has_column_labelled)
  from collect_series_unique [OF this] a show ?thesis
    by (simp add: format_output_columns_def has_column_labelled)
qed





subsection \<open>Cast\<close>

lemma cast_missing_column:
  "\<not> has_column df column \<Longrightarrow> safe_cast_column L df column dtype = Inr df"
  by (simp add: safe_cast_column_def)

lemma cast_int64_example:
  "safe_cast_column integers_only cast_frame ''amount'' ''int64''
     = Inr \<lparr>nrows = 3, columns = [(''amount'', [PInt 7, PInt (- 1), PInt (- 1)])]\<rparr>"
  by code_simp

text \<open>What a cast to \<^verbatim>\<open>string\<close> makes of a missing value depends on the library: the text
  \<^verbatim>\<open>None\<close> where \<^verbatim>\<open>astype(str)\<close> prints missing values, the empty string where it keeps
  them for \<^verbatim>\<open>fillna("")\<close>.\<close>

lemma cast_string_example:
  "safe_cast_column L cast_frame ''amount'' ''string''
     = Inr \<lparr>nrows = 3,
            columns = [(''amount'', [PStr ''7'', PStr ''abc'',
                                     PStr (if str_keeps_na L then [] else ''None'')])]\<rparr>"
  by (simp add: safe_cast_column_def cast_frame_def has_column_def column_names_def
      py_lower_def lower_char_def map_column_def fillna_def astype_str_def isna_def)

text \<open>
  C6, at an input where the code departs from it, whatever the library. Casting the column
  \<^verbatim>\<open>["7", "inf", None]\<close> to \<^verbatim>\<open>int64\<close> raises: \<^verbatim>\<open>pd.to_numeric\<close> reads the text \<^verbatim>\<open>inf\<close> as
  the float infinity, \<^verbatim>\<open>fillna(-1)\<close> replaces only the missing value, and \<^verbatim>\<open>astype(int)\<close>
  refuses the infinity with an \<^verbatim>\<open>IntCastingNaNError\<close>, which nothing catches.
\<close>

theorem cast_int64_infinity_raises:
  "safe_cast_column L infinity_frame ''amount'' ''int64'' = Inl IntCastingNaNError"
proof -
  have c: "columns_labelled infinity_frame ''amount'' = [[PStr ''7'', PStr ''inf'', PNone]]"
    by (simp add: columns_labelled_def infinity_frame_def)
  have h: "has_column infinity_frame ''amount''"
    by (simp add: has_column_def column_names_def infinity_frame_def)
  have l: "py_lower ''int64'' = ''int64''"
    by (simp add: py_lower_def lower_char_def)
  have n: "to_numeric L [PStr ''7'', PStr ''inf'', PNone]
             = [to_float L (coerce_numeric L (PStr ''7'')), PFloat ''inf'', PNaN]"
    by (simp add: to_numeric_def is_floating_def)
  have "astype_int L (fillna_number L (- 1) (to_numeric L [PStr ''7'', PStr ''inf'', PNone]))
          = Inl IntCastingNaNError"
    by (simp add: n astype_int_def fillna_number_def nonfinite_def)
  with c h l show ?thesis by (simp add: safe_cast_column_def)
qed


subsection \<open>Join\<close>

lemma clean_series_normalized: "clean_series L s = map (\<lambda>v. PStr (normalized_key v)) s"
  by (induction s)
    (auto simp: clean_series_def fillna_def replace_values_def astype_str_def normalized_key_def
      isna_def)

lemma map_column_absent: "\<not> has_column df c \<Longrightarrow> map_column df c f = df"
proof -
  assume "\<not> has_column df c"
  then have "map (\<lambda>p. if fst p = c then (c, f (snd p)) else p) (columns df) = columns df"
    by (intro map_idI) (auto simp: has_column_def column_names_def)
  then show ?thesis by (simp add: map_column_def)
qed

lemma clean_join_key_normalized:
  "clean_join_key L df k = map_column df k (map (\<lambda>v. PStr (normalized_key v)))"
proof -
  have "clean_series L = map (\<lambda>v. PStr (normalized_key v))"
    by (rule ext) (rule clean_series_normalized)
  then show ?thesis by (simp add: clean_join_key_def map_column_absent)
qed

lemma labelled_map_column:
  "columns_labelled (map_column df c f) c = map f (columns_labelled df c)"
proof -
  have "map snd (filter (\<lambda>p. fst p = c) (map (\<lambda>p. if fst p = c then (c, f (snd p)) else p) cols))
          = map f (map snd (filter (\<lambda>p. fst p = c) cols))" for cols :: "(string \<times> series) list"
    by (induction cols) auto
  then show ?thesis by (simp add: columns_labelled_def map_column_def)
qed

lemma names_map_column: "map fst (columns (map_column df c f)) = map fst (columns df)"
  by (simp add: map_column_def o_def if_distrib [of fst] cong: if_cong)

lemma nrows_map_column: "nrows (map_column df c f) = nrows df"
  by (simp add: map_column_def)

lemma names_right_columns:
  "map fst (right_columns (map_column right rk f) lk rk) = map fst (right_columns right lk rk)"
proof -
  have "map fst (filter (\<lambda>c. fst c \<noteq> rk) (map (\<lambda>p. if fst p = rk then (rk, f (snd p)) else p) cols))
          = map fst (filter (\<lambda>c. fst c \<noteq> rk) cols)" for cols :: "(string \<times> series) list"
    by (induction cols) auto
  then show ?thesis
    using names_map_column [of right rk f] by (simp add: right_columns_def map_column_def)
qed















lemma take_left_length: "length (take_left idx s) = length idx"
  by (simp add: take_left_def)

lemma take_right_length: "length (take_right L idx s) = length idx"
  by (simp add: take_right_def)




lemma merge_left_result:
  assumes "columns_labelled left lk = [lkeys]" and "columns_labelled right rk = [rkeys]"
  shows "merge_left L left right lk rk
     = (if labels_clash (map fst (columns left)) (map fst (right_columns right lk rk))
        then Inl MergeError
        else Inr \<lparr>nrows = length (join_index lkeys rkeys),
                  columns =
                    zip (left_labels (map fst (columns left)) (map fst (right_columns right lk rk)))
                      (map (\<lambda>c. take_left (join_index lkeys rkeys) (snd c)) (columns left))
                    @ zip (right_labels (map fst (columns left))
                             (map fst (right_columns right lk rk)))
                        (map (\<lambda>c. take_right L (join_index lkeys rkeys) (snd c))
                           (right_columns right lk rk))\<rparr>)"
  by (simp add: merge_left_def assms Let_def)

text \<open>What Join raises: a key column that one of the frames lacks is a \<^verbatim>\<open>KeyError\<close>, and
  labels that collide once suffixed are a \<^verbatim>\<open>MergeError\<close>.\<close>

lemma safe_merge_missing_right_key:
  "\<not> has_column right rk \<Longrightarrow> safe_merge L left right lk rk = Inl KeyError"
  by (simp add: safe_merge_def clean_join_key_normalized merge_left_def labelled_map_column
      has_column_labelled)

lemma safe_merge_missing_left_key:
  "columns_labelled right rk = [rkeys] \<Longrightarrow> \<not> has_column left lk \<Longrightarrow>
   safe_merge L left right lk rk = Inl KeyError"
  by (simp add: safe_merge_def clean_join_key_normalized merge_left_def labelled_map_column
      has_column_labelled)

lemma safe_merge_clash:
  assumes "columns_labelled left lk = [lkeys]" and "columns_labelled right rk = [rkeys]"
    and "labels_clash (column_names left) (map fst (right_columns right lk rk))"
  shows "safe_merge L left right lk rk = Inl MergeError"
proof -
  define f where "f = map (\<lambda>v. PStr (normalized_key v))"
  have l: "columns_labelled (map_column left lk f) lk = [f lkeys]"
    by (simp add: labelled_map_column assms(1))
  have r: "columns_labelled (map_column right rk f) rk = [f rkeys]"
    by (simp add: labelled_map_column assms(2))
  from assms(3) have "labels_clash (map fst (columns (map_column left lk f)))
          (map fst (right_columns (map_column right rk f) lk rk))"
    by (simp only: names_map_column names_right_columns column_names_def)
  then have "merge_left L (map_column left lk f) (map_column right rk f) lk rk = Inl MergeError"
    by (simp only: merge_left_result [OF l r] if_True)
  then show ?thesis
    by (simp add: safe_merge_def clean_join_key_normalized f_def)
qed




end
